theory Spec2Isabelle
  imports Main
begin

section \<open>I/O utilities of \<^verbatim>\<open>skbio.io.util\<close>: data model\<close>

text \<open>
  The module is glue around three collaborators of the host: the URL parser
  (\<^verbatim>\<open>requests.compat.urlparse\<close>), the cached HTTP session
  (\<^verbatim>\<open>sess.get\<close>, \<^verbatim>\<open>req.raise_for_status\<close>) and the builtin
  \<^verbatim>\<open>open\<close>. They are not code of the module, so they are fields of an
  environment record; the three functions of the module are embedded over an arbitrary
  environment. The field \<open>http_get\<close> stands for the \<^verbatim>\<open>get\<close> of the session that
  line 51 builds (\<^verbatim>\<open>CacheControl\<close> over a \<^verbatim>\<open>FileCache\<close> in the temporary
  directory), \<open>urlparse_scheme\<close> for \<^verbatim>\<open>urlparse(...).scheme\<close>, which returns a
  scheme of the string kind it was given, or raises. Streams are objects with an
  identity; the world records which identities exist, which are closed, the error that
  closing each would raise, and the calls the module made to its collaborators.

  Python leaves it to the host when an object that is no longer referenced is
  finalised. CPython counts references and finalises at once, and the finaliser of a
  file object closes it; PyPy and Jython collect later. The field \<open>refcounted\<close> says
  which kind of host it is.
\<close>

type_synonym addr = nat

text \<open>
  Python values the functions can be handed: a text string, a byte string, a reference
  to an object (a file handle or any file-like object), or some other value.
\<close>

datatype pyval = PStr string | PBytes string | PObj addr | PNone | PInt int

type_synonym pyargs = "pyval list"
type_synonym pykwargs = "(string \<times> pyval) list"

datatype error =
    HTTPError nat
  | ConnectionError
  | OSError nat
  | ValueError
  | TypeError
  | AttributeError
  | UnicodeDecodeError
  | BodyError nat

text \<open>The interpreter line: the module imports \<^verbatim>\<open>future.builtins\<close> and
  \<^verbatim>\<open>six\<close> to run on both.\<close>

datatype pyver = Py2 | Py3

record response =
  status_code :: nat
  content :: string

datatype stream = FileStream string | BytesIO string

datatype event =
    EvGet pyval pykwargs
  | EvOpen pyval pyargs pykwargs
  | EvClose addr

record env =
  host :: pyver
  urlparse_scheme :: "pyval \<Rightarrow> error + pyval"
  http_get :: "pyval \<Rightarrow> pykwargs \<Rightarrow> error + response"
  raise_for_status :: "response \<Rightarrow> error option"
  fs_open :: "pyval \<Rightarrow> pyargs \<Rightarrow> pykwargs \<Rightarrow> error + string"
  refcounted :: bool

text \<open>
  \<open>close_error w a\<close> is the exception that \<^verbatim>\<open>close()\<close> of object \<open>a\<close> raises in
  world \<open>w\<close>, if any: \<^verbatim>\<open>close\<close> flushes what was written, and that can fail (a
  full device, an I/O error). The body of a \<^verbatim>\<open>with\<close> statement changes it by writing.
\<close>

record world =
  next_fh :: addr
  objs :: "addr \<Rightarrow> stream option"
  closed_fh :: "addr \<Rightarrow> bool"
  close_error :: "addr \<Rightarrow> error option"
  events :: "event list"

section \<open>The functions of the module\<close>

text \<open>\<^verbatim>\<open>_is_string_or_bytes(s)\<close>:
  \<^verbatim>\<open>isinstance(s, str) or isinstance(s, bytes)\<close>.\<close>

fun is_string_or_bytes :: "pyval \<Rightarrow> bool" where
  "is_string_or_bytes (PStr s) = True"
| "is_string_or_bytes (PBytes s) = True"
| "is_string_or_bytes v = False"

text \<open>
  The test \<^verbatim>\<open>scheme in {'http', 'https'}\<close>. The two literals are native string
  literals of the interpreter. On Python 3 they are text, and a byte string never equals
  a text string. On Python 2 they are byte strings, and an ASCII text string equals (and
  hashes as) the byte string of the same characters.
\<close>

fun scheme_in_http_https :: "pyver \<Rightarrow> pyval \<Rightarrow> bool" where
  "scheme_in_http_https Py3 (PStr s) = (s = ''http'' \<or> s = ''https'')"
| "scheme_in_http_https Py3 v = False"
| "scheme_in_http_https Py2 (PStr s) = (s = ''http'' \<or> s = ''https'')"
| "scheme_in_http_https Py2 (PBytes s) = (s = ''http'' \<or> s = ''https'')"
| "scheme_in_http_https Py2 v = False"

definition log_event :: "event \<Rightarrow> world \<Rightarrow> world" where
  "log_event ev w = w\<lparr>events := events w @ [ev]\<rparr>"

text \<open>Creating a stream object (\<^verbatim>\<open>BytesIO(...)\<close>, or the file object that
  \<^verbatim>\<open>open\<close> returns): a new identity, open, with nothing written to it.\<close>

definition new_stream :: "stream \<Rightarrow> world \<Rightarrow> addr \<times> world" where
  "new_stream s w =
     (next_fh w,
      w\<lparr>next_fh := Suc (next_fh w),
        objs := (objs w)(next_fh w := Some s),
        closed_fh := (closed_fh w)(next_fh w := False),
        close_error := (close_error w)(next_fh w := None)\<rparr>)"

text \<open>\<^verbatim>\<open>fh.close()\<close>: the call is recorded and the object is closed, also when the
  flush inside \<^verbatim>\<open>close\<close> raises (the descriptor is released all the same, and
  \<^verbatim>\<open>fh.closed\<close> is true afterwards); the exception of the flush, if any, is raised. A
  value that is no object has no such method.\<close>

fun fh_close :: "pyval \<Rightarrow> world \<Rightarrow> error option \<times> world" where
  "fh_close (PObj a) w =
     (close_error w a,
      w\<lparr>closed_fh := (closed_fh w)(a := True), events := events w @ [EvClose a]\<rparr>)"
| "fh_close v w = (Some AttributeError, w)"

text \<open>
  A reference to a pair that \<^verbatim>\<open>_get_filehandle\<close> returned goes away. A stream the
  module opened has no other reference, so it becomes unreachable: a reference-counting
  host finalises it on the spot, which closes it without any call of the module; another
  host leaves it as it is. An object supplied by the caller is still referenced by the
  caller.
\<close>

fun release :: "env \<Rightarrow> pyval \<times> bool \<Rightarrow> world \<Rightarrow> world" where
  "release e (PObj a, True) w =
     (if refcounted e then w\<lparr>closed_fh := (closed_fh w)(a := True)\<rparr> else w)"
| "release e p w = w"

text \<open>\<^verbatim>\<open>_get_filehandle(filepath_or, *args, **kwargs)\<close>, lines 45 to 63.\<close>

definition get_filehandle ::
  "env \<Rightarrow> pyval \<Rightarrow> pyargs \<Rightarrow> pykwargs \<Rightarrow> world \<Rightarrow> (error + pyval \<times> bool) \<times> world" where
  "get_filehandle e filepath_or args kwargs w =
     (if is_string_or_bytes filepath_or then
        (case urlparse_scheme e filepath_or of
           Inl err \<Rightarrow> (Inl err, w)
         | Inr scheme \<Rightarrow>
             if scheme_in_http_https (host e) scheme then
               (let w1 = log_event (EvGet filepath_or kwargs) w in
                case http_get e filepath_or kwargs of
                  Inl err \<Rightarrow> (Inl err, w1)
                | Inr req \<Rightarrow>
                    (case raise_for_status e req of
                       Some err \<Rightarrow> (Inl err, w1)
                     | None \<Rightarrow>
                         (let (a, w2) = new_stream (BytesIO (content req)) w1
                          in (Inr (PObj a, True), w2))))
             else
               (let w1 = log_event (EvOpen filepath_or args kwargs) w in
                case fs_open e filepath_or args kwargs of
                  Inl err \<Rightarrow> (Inl err, w1)
                | Inr f \<Rightarrow>
                    (let (a, w2) = new_stream (FileStream f) w1
                     in (Inr (PObj a, True), w2))))
      else (Inr (filepath_or, False), w))"

text \<open>
  \<^verbatim>\<open>open_file\<close>, lines 114 to 119, used as
  \<^verbatim>\<open>with open_file(filepath_or, *args, **kwargs) as fh: body\<close>. The body of the
  \<^verbatim>\<open>with\<close> statement is any computation on the yielded value and the world, and it
  returns or raises. The \<^verbatim>\<open>finally\<close> clause runs in both cases; an exception of
  \<^verbatim>\<open>close\<close> replaces the outcome of the body.
\<close>

definition open_file ::
  "env \<Rightarrow> pyval \<Rightarrow> pyargs \<Rightarrow> pykwargs \<Rightarrow> (pyval \<Rightarrow> world \<Rightarrow> (error + 'r) \<times> world)
     \<Rightarrow> world \<Rightarrow> (error + 'r) \<times> world" where
  "open_file e filepath_or args kwargs body w =
     (case get_filehandle e filepath_or args kwargs w of
        (Inl err, w1) \<Rightarrow> (Inl err, w1)
      | (Inr (fh, own_fh), w1) \<Rightarrow>
          (case body fh w1 of
             (r, w2) \<Rightarrow>
               if own_fh then
                 (case fh_close fh w2 of
                    (Some err, w3) \<Rightarrow> (Inl err, w3)
                  | (None, w3) \<Rightarrow> (r, w3))
               else (r, w2)))"

text \<open>The list comprehension of line 124: the elements are resolved in order, and the
  first failure ends it. The list built so far is then dropped as the exception unwinds,
  and with it the references to the pairs it holds.\<close>

fun get_filehandles ::
  "env \<Rightarrow> pyval list \<Rightarrow> pyargs \<Rightarrow> pykwargs \<Rightarrow> world \<Rightarrow> (error + (pyval \<times> bool) list) \<times> world" where
  "get_filehandles e [] args kwargs w = (Inr [], w)"
| "get_filehandles e (f # fs) args kwargs w =
     (case get_filehandle e f args kwargs w of
        (Inl err, w1) \<Rightarrow> (Inl err, w1)
      | (Inr p, w1) \<Rightarrow>
          (case get_filehandles e fs args kwargs w1 of
             (Inl err, w2) \<Rightarrow> (Inl err, release e p w2)
           | (Inr ps, w2) \<Rightarrow> (Inr (p # ps), w2)))"

text \<open>
  \<^verbatim>\<open>fhs, owns = zip(*pairs)\<close>: \<^verbatim>\<open>zip\<close> of no argument is empty, and unpacking
  it into two names raises \<^verbatim>\<open>ValueError\<close>; of one or more pairs it is the tuple of the
  first components and the tuple of the second components.
\<close>

fun unzip_pairs :: "(pyval \<times> bool) list \<Rightarrow> error + pyval list \<times> bool list" where
  "unzip_pairs [] = Inl ValueError"
| "unzip_pairs ps = Inr (map fst ps, map snd ps)"

text \<open>The loop of lines 128 to 130.\<close>

fun close_owned :: "(pyval \<times> bool) list \<Rightarrow> world \<Rightarrow> error option \<times> world" where
  "close_owned [] w = (None, w)"
| "close_owned ((fh, is_own) # rest) w =
     (if is_own then
        (case fh_close fh w of
           (Some err, w1) \<Rightarrow> (Some err, w1)
         | (None, w1) \<Rightarrow> close_owned rest w1)
      else close_owned rest w)"

text \<open>
  \<^verbatim>\<open>open_files\<close>, lines 122 to 130, used as
  \<^verbatim>\<open>with open_files(fp_list, *args, **kwargs) as fhs: body\<close>. Line 124 is outside
  the \<^verbatim>\<open>try\<close>. The loop of the \<^verbatim>\<open>finally\<close> clause ends at the first
  \<^verbatim>\<open>close\<close> that raises; the streams are still bound to \<^verbatim>\<open>fhs\<close> in the caller
  then, so none of them is finalised.
\<close>

definition open_files ::
  "env \<Rightarrow> pyval list \<Rightarrow> pyargs \<Rightarrow> pykwargs \<Rightarrow> (pyval list \<Rightarrow> world \<Rightarrow> (error + 'r) \<times> world)
     \<Rightarrow> world \<Rightarrow> (error + 'r) \<times> world" where
  "open_files e fp_list args kwargs body w =
     (case get_filehandles e fp_list args kwargs w of
        (Inl err, w1) \<Rightarrow> (Inl err, w1)
      | (Inr pairs, w1) \<Rightarrow>
          (case unzip_pairs pairs of
             Inl err \<Rightarrow> (Inl err, w1)
           | Inr (fhs, owns) \<Rightarrow>
               (case body fhs w1 of
                  (r, w2) \<Rightarrow>
                    (case close_owned (zip fhs owns) w2 of
                       (Some err, w3) \<Rightarrow> (Inl err, w3)
                     | (None, w3) \<Rightarrow> (r, w3)))))"

section \<open>A sample host, for the concrete evaluations\<close>

text \<open>The scheme of a URL is what stands before its first colon (enough for the sample
  inputs below; the theorems hold for every parser).\<close>

definition sample_scheme :: "string \<Rightarrow> string" where
  "sample_scheme s = (if CHR '':'' \<in> set s then takeWhile (\<lambda>c. c \<noteq> CHR '':'') s else [])"

fun sample_urlparse :: "pyval \<Rightarrow> error + pyval" where
  "sample_urlparse (PStr s) = Inr (PStr (sample_scheme s))"
| "sample_urlparse (PBytes s) = Inr (PBytes (sample_scheme s))"
| "sample_urlparse v = Inl AttributeError"

text \<open>One URL answers 200 with a body, every other URL answers 404.\<close>

definition sample_get :: "pyval \<Rightarrow> pykwargs \<Rightarrow> error + response" where
  "sample_get url kwargs =
     (if url = PStr ''http://h/s'' \<or> url = PBytes ''http://h/s''
      then Inr \<lparr>status_code = 200, content = ''abc''\<rparr>
      else Inr \<lparr>status_code = 404, content = ''''\<rparr>)"

text \<open>The check of the \<^verbatim>\<open>requests\<close> library: statuses 400 to 599 raise.\<close>

definition sample_raise_for_status :: "response \<Rightarrow> error option" where
  "sample_raise_for_status r =
     (if 400 \<le> status_code r \<and> status_code r < 600 then Some (HTTPError (status_code r))
      else None)"

text \<open>Two files exist; every other path is missing (\<^verbatim>\<open>ENOENT\<close> is 2).\<close>

definition sample_open :: "pyval \<Rightarrow> pyargs \<Rightarrow> pykwargs \<Rightarrow> error + string" where
  "sample_open p args kwargs =
     (if p = PStr ''p1'' \<or> p = PStr ''p2'' \<or> p = PBytes ''p1'' then Inr ''ACGT''
      else Inl (OSError 2))"

definition sample_env :: "pyver \<Rightarrow> env" where
  "sample_env v =
     \<lparr>host = v, urlparse_scheme = sample_urlparse, http_get = sample_get,
      raise_for_status = sample_raise_for_status, fs_open = sample_open,
      refcounted = True\<rparr>"

text \<open>The same host without reference counting.\<close>

definition sample_env_gc :: "pyver \<Rightarrow> env" where
  "sample_env_gc v = (sample_env v)\<lparr>refcounted := False\<rparr>"

text \<open>A world in which one object, the caller's handle \<open>PObj 0\<close>, exists and is open.\<close>

definition w0 :: world where
  "w0 = \<lparr>next_fh = 1, objs = (\<lambda>a. None)(0 := Some (FileStream ''caller'')),
         closed_fh = (\<lambda>a. False), close_error = (\<lambda>a. None), events = []\<rparr>"

text \<open>Bodies of a \<^verbatim>\<open>with\<close> statement: one returns, one raises, one reads the
  stream it is given (\<^verbatim>\<open>fh.read()\<close>), and one writes to the first stream of a
  sequence what cannot be flushed later (a full device, \<^verbatim>\<open>ENOSPC\<close> is 28).\<close>

definition body_ok :: "'a \<Rightarrow> world \<Rightarrow> (error + nat) \<times> world" where
  "body_ok fh w = (Inr 7, w)"

definition body_raise :: "'a \<Rightarrow> world \<Rightarrow> (error + nat) \<times> world" where
  "body_raise fh w = (Inl (BodyError 1), w)"


fun body_write_full :: "pyval list \<Rightarrow> world \<Rightarrow> (error + nat) \<times> world" where
  "body_write_full (PObj a # fhs) w =
     (Inr 1, w\<lparr>close_error := (close_error w)(a := Some (OSError 28))\<rparr>)"
| "body_write_full fhs w = (Inl AttributeError, w)"

section \<open>What one resolution does\<close>

lemma get_filehandle_nonstring:
  "\<not> is_string_or_bytes x \<Longrightarrow> get_filehandle e x args kwargs w = (Inr (x, False), w)"
  by (simp add: get_filehandle_def)

lemma get_filehandle_url:
  assumes "is_string_or_bytes x" and "urlparse_scheme e x = Inr scheme"
    and "scheme_in_http_https (host e) scheme"
  shows "get_filehandle e x args kwargs w =
    (case http_get e x kwargs of
       Inl err \<Rightarrow> (Inl err, log_event (EvGet x kwargs) w)
     | Inr req \<Rightarrow>
        (case raise_for_status e req of
           Some err \<Rightarrow> (Inl err, log_event (EvGet x kwargs) w)
         | None \<Rightarrow> (Inr (PObj (next_fh w), True),
             snd (new_stream (BytesIO (content req)) (log_event (EvGet x kwargs) w)))))"
  using assms
  by (simp add: get_filehandle_def Let_def new_stream_def log_event_def
      split: sum.splits option.splits)

lemma get_filehandle_path:
  assumes "is_string_or_bytes x" and "urlparse_scheme e x = Inr scheme"
    and "\<not> scheme_in_http_https (host e) scheme"
  shows "get_filehandle e x args kwargs w =
    (case fs_open e x args kwargs of
       Inl err \<Rightarrow> (Inl err, log_event (EvOpen x args kwargs) w)
     | Inr f \<Rightarrow> (Inr (PObj (next_fh w), True),
             snd (new_stream (FileStream f) (log_event (EvOpen x args kwargs) w))))"
  using assms
  by (simp add: get_filehandle_def Let_def new_stream_def log_event_def
      split: sum.splits option.splits)

lemma get_filehandle_parse_error:
  assumes "is_string_or_bytes x" and "urlparse_scheme e x = Inl err"
  shows "get_filehandle e x args kwargs w = (Inl err, w)"
  using assms by (simp add: get_filehandle_def)

lemma get_filehandle_Inr:
  assumes "get_filehandle e x args kwargs w = (Inr (fh, own), w')"
  shows "own = is_string_or_bytes x"
    and "own \<Longrightarrow> fh = PObj (next_fh w) \<and> next_fh w' = Suc (next_fh w)
           \<and> \<not> closed_fh w' (next_fh w) \<and> objs w' (next_fh w) \<noteq> None"
    and "\<not> own \<Longrightarrow> fh = x \<and> w' = w"
  using assms
  by (auto simp add: get_filehandle_def Let_def new_stream_def log_event_def
      split: if_splits sum.splits option.splits)

lemma get_filehandle_frame:
  assumes "get_filehandle e x args kwargs w = (r, w')"
  shows "next_fh w \<le> next_fh w'"
    and "\<And>a. a < next_fh w \<Longrightarrow> closed_fh w' a = closed_fh w a"
    and "\<exists>evs. events w' = events w @ evs \<and> (\<forall>a. EvClose a \<notin> set evs)"
  using assms
  by (auto simp add: get_filehandle_def Let_def new_stream_def log_event_def
      split: if_splits sum.splits option.splits)


lemmas sample_simps =
  sample_env_def sample_scheme_def sample_get_def sample_raise_for_status_def
  sample_open_def sample_env_gc_def w0_def body_ok_def body_raise_def
  get_filehandle_def log_event_def new_stream_def Let_def

section \<open>What the resolution of a list does\<close>

lemma get_filehandle_objs_frame:
  assumes "get_filehandle e x args kwargs w = (r, w')" and "a < next_fh w"
  shows "objs w' a = objs w a"
  using assms
  by (auto simp add: get_filehandle_def Let_def new_stream_def log_event_def
      split: if_splits sum.splits option.splits)

lemma release_frame:
  "next_fh (release e p w) = next_fh w"
  "objs (release e p w) = objs w"
  "events (release e p w) = events w"
  "close_error (release e p w) = close_error w"
  "closed_fh (release e p w) a = (closed_fh w a \<or> (refcounted e \<and> p = (PObj a, True)))"
  by (cases "(e, p, w)" rule: release.cases; auto)+

lemma foldr_release_frame:
  "next_fh (foldr (release e) ps w) = next_fh w"
  "objs (foldr (release e) ps w) = objs w"
  "events (foldr (release e) ps w) = events w"
  "closed_fh (foldr (release e) ps w) a
     = (closed_fh w a \<or> (refcounted e \<and> (PObj a, True) \<in> set ps))"
  by (induction ps; auto simp add: release_frame)+

lemma get_filehandles_frame:
  "get_filehandles e fps args kwargs w = (r, w1) \<Longrightarrow>
     next_fh w \<le> next_fh w1
     \<and> (\<forall>a<next_fh w. closed_fh w1 a = closed_fh w a \<and> objs w1 a = objs w a)
     \<and> (\<exists>evs. events w1 = events w @ evs \<and> (\<forall>a. EvClose a \<notin> set evs))"
proof (induction fps arbitrary: w r w1)
  case Nil
  then show ?case by simp
next
  case (Cons f fs)
  obtain r' w' where g: "get_filehandle e f args kwargs w = (r', w')"
    by (cases "get_filehandle e f args kwargs w")
  note fr = get_filehandle_frame[OF g] get_filehandle_objs_frame[OF g]
  show ?case
  proof (cases r')
    case (Inl err)
    with Cons.prems g have "w1 = w'" by simp
    with fr show ?thesis by simp
  next
    case (Inr p)
    obtain r'' w'' where gs: "get_filehandles e fs args kwargs w' = (r'', w'')"
      by (cases "get_filehandles e fs args kwargs w'")
    with Cons.prems g Inr have w1: "w1 = w'' \<or> w1 = release e p w''"
      by (auto split: sum.splits)
    have old: "p \<noteq> (PObj a, True)" if "a < next_fh w" for a
    proof
      assume "p = (PObj a, True)"
      with g Inr have "get_filehandle e f args kwargs w = (Inr (PObj a, True), w')" by simp
      from get_filehandle_Inr(2)[OF this] that show False by simp
    qed
    from Cons.IH[OF gs] have
      n: "next_fh w' \<le> next_fh w''" and
      c: "\<forall>a<next_fh w'. closed_fh w'' a = closed_fh w' a \<and> objs w'' a = objs w' a" and
      ev: "\<exists>evs. events w'' = events w' @ evs \<and> (\<forall>a. EvClose a \<notin> set evs)"
      by simp_all
    from fr(3) ev have 1: "\<exists>evs. events w'' = events w @ evs \<and> (\<forall>a. EvClose a \<notin> set evs)"
      by auto
    from fr(1) n have 2: "next_fh w \<le> next_fh w''" by simp
    from fr(1,2,4) c
    have 3: "\<forall>a<next_fh w. closed_fh w'' a = closed_fh w a \<and> objs w'' a = objs w a"
      by auto
    from w1 show ?thesis
    proof
      assume "w1 = w''"
      with 1 2 3 show ?thesis by simp
    next
      assume "w1 = release e p w''"
      with 1 2 3 old show ?thesis by (simp add: release_frame)
    qed
  qed
qed

lemma get_filehandles_Cons_Inr:
  assumes "get_filehandles e (f # fs) args kwargs w = (Inr ps, w1)"
  obtains p w' ps' where "get_filehandle e f args kwargs w = (Inr p, w')"
    and "get_filehandles e fs args kwargs w' = (Inr ps', w1)" and "ps = p # ps'"
  using assms by (auto split: prod.splits sum.splits)

lemma get_filehandles_length:
  "get_filehandles e fps args kwargs w = (Inr ps, w1) \<Longrightarrow> length ps = length fps"
proof (induction fps arbitrary: w ps)
  case Nil
  then show ?case by simp
next
  case (Cons f fs)
  from Cons.prems obtain p w' ps' where
    "get_filehandles e fs args kwargs w' = (Inr ps', w1)" and "ps = p # ps'"
    by (rule get_filehandles_Cons_Inr)
  with Cons.IH show ?case by simp
qed

lemma get_filehandles_nth:
  "get_filehandles e fps args kwargs w = (Inr ps, w1) \<Longrightarrow> i < length fps \<Longrightarrow>
     \<exists>wi wi'. get_filehandles e (take i fps) args kwargs w = (Inr (take i ps), wi)
        \<and> get_filehandle e (fps ! i) args kwargs wi = (Inr (ps ! i), wi')
        \<and> next_fh w \<le> next_fh wi \<and> next_fh wi' \<le> next_fh w1"
proof (induction fps arbitrary: w ps i)
  case Nil
  then show ?case by simp
next
  case (Cons f fs)
  from Cons.prems(1) obtain p w' ps' where
    g: "get_filehandle e f args kwargs w = (Inr p, w')" and
    gs: "get_filehandles e fs args kwargs w' = (Inr ps', w1)" and ps: "ps = p # ps'"
    by (rule get_filehandles_Cons_Inr)
  show ?case
  proof (cases i)
    case 0
    from get_filehandles_frame[OF gs] have "next_fh w' \<le> next_fh w1" by simp
    with 0 g ps show ?thesis by simp
  next
    case (Suc k)
    with Cons.prems(2) have k: "k < length fs" by simp
    from Cons.IH[OF gs k] obtain wi wi' where
      a: "get_filehandles e (take k fs) args kwargs w' = (Inr (take k ps'), wi)" and
      b: "get_filehandle e (fs ! k) args kwargs wi = (Inr (ps' ! k), wi')" and
      c: "next_fh w' \<le> next_fh wi" and d: "next_fh wi' \<le> next_fh w1"
      by blast
    from get_filehandle_frame(1)[OF g] c have "next_fh w \<le> next_fh wi" by simp
    with a b d g Suc ps show ?thesis by simp
  qed
qed

lemma get_filehandles_owned_open:
  "get_filehandles e fps args kwargs w = (Inr ps, w1) \<Longrightarrow> (PObj a, True) \<in> set ps \<Longrightarrow>
     next_fh w \<le> a \<and> a < next_fh w1 \<and> \<not> closed_fh w1 a \<and> objs w1 a \<noteq> None"
proof (induction fps arbitrary: w ps)
  case Nil
  then show ?case by simp
next
  case (Cons f fs)
  from Cons.prems(1) obtain p w' ps' where
    g: "get_filehandle e f args kwargs w = (Inr p, w')" and
    gs: "get_filehandles e fs args kwargs w' = (Inr ps', w1)" and ps: "ps = p # ps'"
    by (rule get_filehandles_Cons_Inr)
  note fr = get_filehandles_frame[OF gs]
  from Cons.prems(2) ps consider "p = (PObj a, True)" | "(PObj a, True) \<in> set ps'" by auto
  then show ?case
  proof cases
    case 1
    with g have g': "get_filehandle e f args kwargs w = (Inr (PObj a, True), w')" by simp
    from get_filehandle_Inr(2)[OF g'] have
      "a = next_fh w" "next_fh w' = Suc (next_fh w)" "\<not> closed_fh w' a" "objs w' a \<noteq> None"
      by simp_all
    with fr show ?thesis by simp
  next
    case 2
    from Cons.IH[OF gs 2] get_filehandle_frame(1)[OF g] show ?thesis by simp
  qed
qed

lemma get_filehandles_append:
  "get_filehandles e (xs @ ys) args kwargs w =
     (case get_filehandles e xs args kwargs w of
        (Inl err, w1) \<Rightarrow> (Inl err, w1)
      | (Inr ps, w1) \<Rightarrow>
          (case get_filehandles e ys args kwargs w1 of
             (Inl err, w2) \<Rightarrow> (Inl err, foldr (release e) ps w2)
           | (Inr qs, w2) \<Rightarrow> (Inr (ps @ qs), w2)))"
  by (induction xs arbitrary: w) (auto split: prod.splits sum.splits)

lemma close_owned_objects:
  "\<forall>p\<in>set ps. snd p \<longrightarrow> (\<exists>a. fst p = PObj a) \<Longrightarrow>
     \<exists>as. map PObj as = map fst (filter snd ps)
       \<and> close_owned ps w =
           (case dropWhile (\<lambda>a. close_error w a = None) as of
              [] \<Rightarrow> None
            | a # rest \<Rightarrow> close_error w a,
            w\<lparr>closed_fh := (\<lambda>a. closed_fh w a
                   \<or> a \<in> set (takeWhile (\<lambda>a. close_error w a = None) as
                               @ take 1 (dropWhile (\<lambda>a. close_error w a = None) as))),
              events := events w
                   @ map EvClose (takeWhile (\<lambda>a. close_error w a = None) as
                                  @ take 1 (dropWhile (\<lambda>a. close_error w a = None) as))\<rparr>)"
proof (induction ps arbitrary: w)
  case Nil
  show ?case by (rule exI[of _ "[]"]) simp
next
  case (Cons p ps)
  obtain fh is_own where p: "p = (fh, is_own)" by (cases p)
  let ?ok = "\<lambda>a. close_error w a = None"
  show ?case
  proof (cases is_own)
    case False
    from Cons.IH[of w] Cons.prems obtain as where
      "map PObj as = map fst (filter snd ps)"
      "close_owned ps w =
           (case dropWhile ?ok as of [] \<Rightarrow> None | a # rest \<Rightarrow> close_error w a,
            w\<lparr>closed_fh := (\<lambda>a. closed_fh w a
                   \<or> a \<in> set (takeWhile ?ok as @ take 1 (dropWhile ?ok as))),
              events := events w @ map EvClose (takeWhile ?ok as @ take 1 (dropWhile ?ok as))\<rparr>)"
      by auto
    with False p show ?thesis by auto
  next
    case True
    with Cons.prems p obtain a where fh: "fh = PObj a" by auto
    let ?w1 = "w\<lparr>closed_fh := (closed_fh w)(a := True), events := events w @ [EvClose a]\<rparr>"
    have ce: "close_error ?w1 = close_error w" by simp
    from Cons.IH[of ?w1] Cons.prems obtain as where
      m: "map PObj as = map fst (filter snd ps)" and
      c: "close_owned ps ?w1 =
           (case dropWhile ?ok as of [] \<Rightarrow> None | a # rest \<Rightarrow> close_error w a,
            ?w1\<lparr>closed_fh := (\<lambda>b. closed_fh ?w1 b
                   \<or> b \<in> set (takeWhile ?ok as @ take 1 (dropWhile ?ok as))),
              events := events ?w1 @ map EvClose (takeWhile ?ok as @ take 1 (dropWhile ?ok as))\<rparr>)"
      unfolding ce by auto
    have m': "map PObj (a # as) = map fst (filter snd (p # ps))"
      using m p True fh by simp
    have "close_owned (p # ps) w =
           (case dropWhile ?ok (a # as) of [] \<Rightarrow> None | a # rest \<Rightarrow> close_error w a,
            w\<lparr>closed_fh := (\<lambda>b. closed_fh w b
                   \<or> b \<in> set (takeWhile ?ok (a # as) @ take 1 (dropWhile ?ok (a # as)))),
              events := events w
                   @ map EvClose (takeWhile ?ok (a # as) @ take 1 (dropWhile ?ok (a # as)))\<rparr>)"
    proof (cases "close_error w a")
      case None
      with c p True fh show ?thesis by (auto simp add: fun_eq_iff)
    next
      case (Some err)
      with p True fh show ?thesis by (auto simp add: fun_eq_iff)
    qed
    with m' show ?thesis by blast
  qed
qed

lemma unzip_pairs_Inr:
  "unzip_pairs ps = Inr (fhs, owns) \<Longrightarrow> ps \<noteq> [] \<and> fhs = map fst ps \<and> owns = map snd ps"
  by (cases ps) auto

lemma get_filehandles_distinct:
  assumes gs: "get_filehandles e fps args kwargs w = (Inr ps, w1)"
    and ij: "i < j" "j < length fps" and own: "snd (ps ! i)" "snd (ps ! j)"
  shows "fst (ps ! i) \<noteq> fst (ps ! j)"
proof -
  from get_filehandles_nth[OF gs ij(2)] obtain wj wj' where
    tj: "get_filehandles e (take j fps) args kwargs w = (Inr (take j ps), wj)" and
    gj: "get_filehandle e (fps ! j) args kwargs wj = (Inr (ps ! j), wj')"
    by blast
  from ij have "i < length (take j fps)" by simp
  from get_filehandles_nth[OF tj this] ij obtain wi wi' where
    gi: "get_filehandle e (fps ! i) args kwargs wi = (Inr (take j ps ! i), wi')" and
    le: "next_fh wi' \<le> next_fh wj"
    by auto
  from ij have pi: "take j ps ! i = ps ! i" by simp
  from gi pi have gi': "get_filehandle e (fps ! i) args kwargs wi = (Inr (fst (ps ! i), snd (ps ! i)), wi')"
    by simp
  from gj have gj': "get_filehandle e (fps ! j) args kwargs wj = (Inr (fst (ps ! j), snd (ps ! j)), wj')"
    by simp
  from get_filehandle_Inr(2)[OF gi' own(1)] get_filehandle_Inr(2)[OF gj' own(2)] le
  show ?thesis by auto
qed

section \<open>Byte strings and the scheme test\<close>

lemma bytes_input_on_py3_takes_open_branch:
  assumes "host e = Py3" and "urlparse_scheme e (PBytes s) = Inr (PBytes sch)"
  shows "get_filehandle e (PBytes s) args kwargs w =
    (case fs_open e (PBytes s) args kwargs of
       Inl err \<Rightarrow> (Inl err, log_event (EvOpen (PBytes s) args kwargs) w)
     | Inr f \<Rightarrow> (Inr (PObj (next_fh w), True),
             snd (new_stream (FileStream f) (log_event (EvOpen (PBytes s) args kwargs) w))))"
  using get_filehandle_path[OF _ assms(2), of args kwargs w] assms(1) by simp

lemma bytes_url_on_py2_takes_get_branch:
  assumes "host e = Py2" and "urlparse_scheme e (PBytes s) = Inr (PBytes sch)"
    and "sch = ''http'' \<or> sch = ''https''"
  shows "events (snd (get_filehandle e (PBytes s) args kwargs w))
    = events w @ [EvGet (PBytes s) kwargs]"
  using get_filehandle_url[OF _ assms(2), of args kwargs w] assms(1,3)
  by (auto simp add: log_event_def new_stream_def split: sum.splits option.splits)

lemmas list_simps = sample_simps open_files_def open_file_def

section \<open>Properties\<close>

text \<open>
  C1. \<^verbatim>\<open>_get_filehandle\<close> resolves its input exactly when the input is a text or
  byte string. For a string, the call either raises, or returns a stream it has just
  created (a new identity, open) with the ownership flag true, after one call to the HTTP
  session or to \<^verbatim>\<open>open\<close> on that very input. Any other value comes back unchanged
  with the flag false, and nothing else happens.
\<close>

theorem get_filehandle_resolves_iff_string:
  assumes "get_filehandle e x args kwargs w = (r, w')"
  shows "(is_string_or_bytes x \<longrightarrow>
            (\<exists>err. r = Inl err) \<or>
            (r = Inr (PObj (next_fh w), True) \<and> objs w' (next_fh w) \<noteq> None
               \<and> \<not> closed_fh w' (next_fh w)
               \<and> (events w' = events w @ [EvGet x kwargs]
                    \<or> events w' = events w @ [EvOpen x args kwargs])))
       \<and> (\<not> is_string_or_bytes x \<longrightarrow> r = Inr (x, False) \<and> w' = w)"
  using assms
  by (auto simp add: get_filehandle_def Let_def new_stream_def log_event_def
      split: if_splits sum.splits option.splits)

theorem get_filehandle_resolves_iff_string_witness:
  "is_string_or_bytes (PStr ''p1'')
   \<and> fst (get_filehandle (sample_env Py3) (PStr ''p1'') [PStr ''r''] [] w0) = Inr (PObj 1, True)
   \<and> events (snd (get_filehandle (sample_env Py3) (PStr ''p1'') [PStr ''r''] [] w0))
        = [EvOpen (PStr ''p1'') [PStr ''r''] []]
   \<and> \<not> is_string_or_bytes (PObj 0)
   \<and> get_filehandle (sample_env Py3) (PObj 0) [PStr ''r''] [] w0 = (Inr (PObj 0, False), w0)"
  using get_filehandle_resolves_iff_string
      [of "sample_env Py3" "PStr ''p1''" "[PStr ''r'']" "[]" w0
          "fst (get_filehandle (sample_env Py3) (PStr ''p1'') [PStr ''r''] [] w0)"
          "snd (get_filehandle (sample_env Py3) (PStr ''p1'') [PStr ''r''] [] w0)"]
    get_filehandle_resolves_iff_string
      [of "sample_env Py3" "PObj 0" "[PStr ''r'']" "[]" w0 "Inr (PObj 0, False)" w0]
  by (simp add: sample_simps)

text \<open>
  C2. When the resolution succeeded and the body of the \<^verbatim>\<open>with\<close> statement ended with
  outcome \<open>r\<close> (a value or an exception) in world \<open>w2\<close>: for a string input the
  stream is owned, and \<^verbatim>\<open>open_file\<close> ends in \<open>w2\<close> with exactly one \<^verbatim>\<open>close\<close>
  of that stream added, with outcome \<open>r\<close>, or with the exception of that
  \<^verbatim>\<open>close\<close> when it raises; for any other input it ends with \<open>r\<close> in \<open>w2\<close>
  itself, with no \<^verbatim>\<open>close\<close>.
\<close>

theorem open_file_closes_owned_once:
  assumes "get_filehandle e x args kwargs w = (Inr (fh, own_fh), w1)"
    and "body fh w1 = (r, w2)"
  shows "(is_string_or_bytes x \<longrightarrow>
            own_fh \<and> fh = PObj (next_fh w) \<and>
            open_file e x args kwargs body w =
              (case close_error w2 (next_fh w) of None \<Rightarrow> r | Some err \<Rightarrow> Inl err,
               w2\<lparr>closed_fh := (closed_fh w2)(next_fh w := True),
                  events := events w2 @ [EvClose (next_fh w)]\<rparr>))
       \<and> (\<not> is_string_or_bytes x \<longrightarrow>
            \<not> own_fh \<and> open_file e x args kwargs body w = (r, w2))"
proof (cases own_fh)
  case True
  with get_filehandle_Inr(1,2)[OF assms(1)]
  have "is_string_or_bytes x" and "fh = PObj (next_fh w)" by simp_all
  with True assms show ?thesis by (simp add: open_file_def split: option.splits)
next
  case False
  with get_filehandle_Inr(1)[OF assms(1)] have "\<not> is_string_or_bytes x" by simp
  with False assms show ?thesis by (simp add: open_file_def)
qed

theorem open_file_closes_owned_once_witness:
  "is_string_or_bytes (PStr ''p1'')
   \<and> open_file (sample_env Py3) (PStr ''p1'') [] [] body_ok w0 =
       (Inr 7, (snd (get_filehandle (sample_env Py3) (PStr ''p1'') [] [] w0))
          \<lparr>closed_fh := (closed_fh (snd (get_filehandle (sample_env Py3) (PStr ''p1'') [] [] w0)))
                          (1 := True),
            events := [EvOpen (PStr ''p1'') [] [], EvClose 1]\<rparr>)
   \<and> fst (open_file (sample_env Py3) (PStr ''p1'') [] [] body_raise w0) = Inl (BodyError 1)
   \<and> events (snd (open_file (sample_env Py3) (PStr ''p1'') [] [] body_raise w0)) =
       [EvOpen (PStr ''p1'') [] [], EvClose 1]
   \<and> closed_fh (snd (open_file (sample_env Py3) (PStr ''p1'') [] [] body_raise w0)) 1
   \<and> \<not> is_string_or_bytes (PObj 0)
   \<and> open_file (sample_env Py3) (PObj 0) [] [] body_raise w0 = (Inl (BodyError 1), w0)"
proof -
  let ?e = "sample_env Py3"
  let ?w1 = "snd (get_filehandle ?e (PStr ''p1'') [] [] w0)"
  have g: "get_filehandle ?e (PStr ''p1'') [] [] w0 = (Inr (PObj 1, True), ?w1)"
    by (simp add: sample_simps)
  have n: "next_fh w0 = 1" by (simp add: w0_def)
  have ev: "events ?w1 = [EvOpen (PStr ''p1'') [] []]" by (simp add: sample_simps)
  have ce: "close_error ?w1 1 = None" by (simp add: sample_simps)
  have b1: "body_ok (PObj 1) ?w1 = (Inr 7, ?w1)" by (simp add: body_ok_def)
  have b2: "body_raise (PObj 1) ?w1 = (Inl (BodyError 1), ?w1)" by (simp add: body_raise_def)
  have g0: "get_filehandle ?e (PObj 0) [] [] w0 = (Inr (PObj 0, False), w0)"
    by (simp add: get_filehandle_def)
  have b0: "body_raise (PObj 0) w0 = (Inl (BodyError 1), w0)" by (simp add: body_raise_def)
  show ?thesis
    using open_file_closes_owned_once[where body = body_ok, OF g b1]
      open_file_closes_owned_once[where body = body_raise, OF g b2]
      open_file_closes_owned_once[where body = body_raise, OF g0 b0] n ev ce
    by simp
qed

text \<open>
  C3. For an input that is no string, the \<^verbatim>\<open>with\<close> statement is the body run on that
  very object in the unchanged world: the outcome and the final world, so also the closed
  state of the object, are the body's own.
\<close>

theorem open_file_passes_stream_through:
  "\<not> is_string_or_bytes x \<Longrightarrow> open_file e x args kwargs body w = body x w"
  by (simp add: open_file_def get_filehandle_def split: prod.splits)

theorem open_file_passes_stream_through_witness:
  "\<not> is_string_or_bytes (PObj 0)
   \<and> open_file (sample_env Py3) (PObj 0) [] [] body_ok w0 = (Inr 7, w0)
   \<and> open_file (sample_env Py3) (PObj 0) [] [] body_raise w0 = (Inl (BodyError 1), w0)
   \<and> \<not> closed_fh (snd (open_file (sample_env Py3) (PObj 0) [] [] body_raise w0)) 0"
  using open_file_passes_stream_through[of "PObj 0" "sample_env Py3" "[]" "[]" body_ok w0]
    open_file_passes_stream_through[of "PObj 0" "sample_env Py3" "[]" "[]" body_raise w0]
  by (simp add: body_ok_def body_raise_def w0_def)



text \<open>
  C5, as the code behaves. When line 124 succeeded with streams \<open>fhs\<close> and flags
  \<open>owns\<close> (the input list is then not empty), and the body ended with outcome \<open>r\<close>
  in world \<open>w2\<close>: both sequences have the length of the input; position \<open>i\<close> holds
  what \<^verbatim>\<open>_get_filehandle\<close> returned for input \<open>i\<close> in the world left by the inputs
  before it; the flag is true exactly for the strings, and any other input is yielded as
  it is; two owned positions never hold the same stream, also when their inputs are
  equal. At exit \<^verbatim>\<open>open_files\<close> calls \<^verbatim>\<open>close\<close> on the owned streams \<open>as\<close> in
  input order, up to and including the first whose \<^verbatim>\<open>close\<close> raises, and on no other
  object; the outcome is then that exception, and the owned streams after it get no
  \<^verbatim>\<open>close\<close>. When no \<^verbatim>\<open>close\<close> raises, the outcome is \<open>r\<close> and exactly the owned
  streams have been closed, once each.
\<close>

theorem open_files_order_and_release:
  assumes gs: "get_filehandles e fp_list args kwargs w = (Inr pairs, w1)"
    and uz: "unzip_pairs pairs = Inr (fhs, owns)"
    and bd: "body fhs w1 = (r, w2)"
  shows "fp_list \<noteq> [] \<and> length fhs = length fp_list \<and> length owns = length fp_list
       \<and> (\<forall>i<length fp_list. \<exists>wi wi'.
             get_filehandles e (take i fp_list) args kwargs w = (Inr (take i pairs), wi)
             \<and> get_filehandle e (fp_list ! i) args kwargs wi = (Inr (fhs ! i, owns ! i), wi'))
       \<and> (\<forall>i<length fp_list.
             owns ! i = is_string_or_bytes (fp_list ! i)
             \<and> (\<not> owns ! i \<longrightarrow> fhs ! i = fp_list ! i))
       \<and> (\<forall>i j. i < j \<and> j < length fp_list \<and> owns ! i \<and> owns ! j \<longrightarrow> fhs ! i \<noteq> fhs ! j)
       \<and> (\<exists>as. map PObj as = map fst (filter snd (zip fhs owns))
             \<and> open_files e fp_list args kwargs body w =
                 (case dropWhile (\<lambda>a. close_error w2 a = None) as of
                    [] \<Rightarrow> r
                  | a # rest \<Rightarrow> (case close_error w2 a of None \<Rightarrow> r | Some err \<Rightarrow> Inl err),
                  w2\<lparr>closed_fh := (\<lambda>a. closed_fh w2 a
                         \<or> a \<in> set (takeWhile (\<lambda>a. close_error w2 a = None) as
                                     @ take 1 (dropWhile (\<lambda>a. close_error w2 a = None) as))),
                     events := events w2
                         @ map EvClose (takeWhile (\<lambda>a. close_error w2 a = None) as
                                        @ take 1 (dropWhile (\<lambda>a. close_error w2 a = None) as))\<rparr>)
             \<and> ((\<forall>a\<in>set as. close_error w2 a = None) \<longrightarrow>
                  open_files e fp_list args kwargs body w =
                    (r, w2\<lparr>closed_fh := (\<lambda>a. closed_fh w2 a \<or> a \<in> set as),
                            events := events w2 @ map EvClose as\<rparr>)))"
proof -
  let ?ok = "\<lambda>a. close_error w2 a = None"
  from unzip_pairs_Inr[OF uz] have fhs: "fhs = map fst pairs" and owns: "owns = map snd pairs"
    and ne: "pairs \<noteq> []"
    by simp_all
  have len: "length pairs = length fp_list" by (rule get_filehandles_length[OF gs])
  from ne len have ne': "fp_list \<noteq> []" by auto
  have zp: "zip fhs owns = pairs" by (simp add: fhs owns zip_map_fst_snd)
  have nth: "\<exists>wi wi'.
             get_filehandles e (take i fp_list) args kwargs w = (Inr (take i pairs), wi)
             \<and> get_filehandle e (fp_list ! i) args kwargs wi = (Inr (fhs ! i, owns ! i), wi')"
    if "i < length fp_list" for i
    using get_filehandles_nth[OF gs that] that len by (auto simp add: fhs owns)
  have cls: "owns ! i = is_string_or_bytes (fp_list ! i) \<and> (\<not> owns ! i \<longrightarrow> fhs ! i = fp_list ! i)"
    if "i < length fp_list" for i
  proof -
    from nth[OF that] obtain wi wi' where
      g: "get_filehandle e (fp_list ! i) args kwargs wi = (Inr (fhs ! i, owns ! i), wi')"
      by blast
    from get_filehandle_Inr(1)[OF g] get_filehandle_Inr(3)[OF g] show ?thesis by blast
  qed
  have dis: "fhs ! i \<noteq> fhs ! j"
    if "i < j" "j < length fp_list" "owns ! i" "owns ! j" for i j
    using get_filehandles_distinct[OF gs that(1,2)] that len by (simp add: fhs owns)
  have obj: "\<forall>p\<in>set pairs. snd p \<longrightarrow> (\<exists>a. fst p = PObj a)"
  proof
    fix p assume "p \<in> set pairs"
    then obtain i where i: "i < length pairs" and p: "p = pairs ! i"
      by (auto simp add: in_set_conv_nth)
    from i len have i': "i < length fp_list" by simp
    from nth[OF i'] obtain wi wi' where
      g: "get_filehandle e (fp_list ! i) args kwargs wi = (Inr (fhs ! i, owns ! i), wi')"
      by blast
    from get_filehandle_Inr(2)[OF g] i p show "snd p \<longrightarrow> (\<exists>a. fst p = PObj a)"
      by (auto simp add: fhs owns)
  qed
  from close_owned_objects[OF obj, of w2] obtain as where
    m: "map PObj as = map fst (filter snd pairs)" and
    c: "close_owned pairs w2 =
           (case dropWhile ?ok as of [] \<Rightarrow> None | a # rest \<Rightarrow> close_error w2 a,
            w2\<lparr>closed_fh := (\<lambda>a. closed_fh w2 a
                   \<or> a \<in> set (takeWhile ?ok as @ take 1 (dropWhile ?ok as))),
               events := events w2 @ map EvClose (takeWhile ?ok as @ take 1 (dropWhile ?ok as))\<rparr>)"
    by blast
  have o: "open_files e fp_list args kwargs body w =
          (case dropWhile ?ok as of
             [] \<Rightarrow> r
           | a # rest \<Rightarrow> (case close_error w2 a of None \<Rightarrow> r | Some err \<Rightarrow> Inl err),
           w2\<lparr>closed_fh := (\<lambda>a. closed_fh w2 a
                   \<or> a \<in> set (takeWhile ?ok as @ take 1 (dropWhile ?ok as))),
               events := events w2 @ map EvClose (takeWhile ?ok as @ take 1 (dropWhile ?ok as))\<rparr>)"
  proof (cases "dropWhile ?ok as")
    case Nil
    show ?thesis unfolding Nil by (simp add: open_files_def gs uz bd zp c[unfolded Nil])
  next
    case (Cons a rest)
    with hd_dropWhile[of ?ok as] have "close_error w2 a \<noteq> None" by auto
    then obtain err where "close_error w2 a = Some err" by auto
    with c Cons show ?thesis by (simp add: open_files_def gs uz bd zp)
  qed
  have o': "open_files e fp_list args kwargs body w =
          (r, w2\<lparr>closed_fh := (\<lambda>a. closed_fh w2 a \<or> a \<in> set as),
                  events := events w2 @ map EvClose as\<rparr>)"
    if "\<forall>a\<in>set as. close_error w2 a = None"
  proof -
    from that have "takeWhile ?ok as = as" and "dropWhile ?ok as = []" by simp_all
    with o show ?thesis by simp
  qed
  from m zp o o' have rel: "\<exists>as. map PObj as = map fst (filter snd (zip fhs owns))
             \<and> open_files e fp_list args kwargs body w =
                 (case dropWhile (\<lambda>a. close_error w2 a = None) as of
                    [] \<Rightarrow> r
                  | a # rest \<Rightarrow> (case close_error w2 a of None \<Rightarrow> r | Some err \<Rightarrow> Inl err),
                  w2\<lparr>closed_fh := (\<lambda>a. closed_fh w2 a
                         \<or> a \<in> set (takeWhile (\<lambda>a. close_error w2 a = None) as
                                     @ take 1 (dropWhile (\<lambda>a. close_error w2 a = None) as))),
                     events := events w2
                         @ map EvClose (takeWhile (\<lambda>a. close_error w2 a = None) as
                                        @ take 1 (dropWhile (\<lambda>a. close_error w2 a = None) as))\<rparr>)
             \<and> ((\<forall>a\<in>set as. close_error w2 a = None) \<longrightarrow>
                  open_files e fp_list args kwargs body w =
                    (r, w2\<lparr>closed_fh := (\<lambda>a. closed_fh w2 a \<or> a \<in> set as),
                            events := events w2 @ map EvClose as\<rparr>))"
    by (intro exI[of _ as]) simp
  from len have l1: "length fhs = length fp_list" and l2: "length owns = length fp_list"
    by (simp_all add: fhs owns)
  show ?thesis
    apply (intro conjI)
          apply (rule ne')
         apply (rule l1)
        apply (rule l2)
       using nth apply blast
      using cls apply blast
     using dis apply blast
    by (rule rel)
qed

theorem open_files_order_and_release_witness:
  "fst (get_filehandles (sample_env Py3) [PStr ''p1'', PStr ''p1'', PObj 0] [] [] w0)
      = Inr [(PObj 1, True), (PObj 2, True), (PObj 0, False)]
   \<and> unzip_pairs [(PObj 1, True), (PObj 2, True), (PObj 0, False)]
      = Inr ([PObj 1, PObj 2, PObj 0], [True, True, False])
   \<and> fst (open_files (sample_env Py3) [PStr ''p1'', PStr ''p1'', PObj 0] [] [] body_ok w0) = Inr 7
   \<and> events (snd (open_files (sample_env Py3) [PStr ''p1'', PStr ''p1'', PObj 0] [] [] body_ok w0))
      = [EvOpen (PStr ''p1'') [] [], EvOpen (PStr ''p1'') [] [], EvClose 1, EvClose 2]
   \<and> closed_fh (snd (open_files (sample_env Py3) [PStr ''p1'', PStr ''p1'', PObj 0] [] [] body_ok w0)) 1
   \<and> closed_fh (snd (open_files (sample_env Py3) [PStr ''p1'', PStr ''p1'', PObj 0] [] [] body_ok w0)) 2
   \<and> \<not> closed_fh (snd (open_files (sample_env Py3) [PStr ''p1'', PStr ''p1'', PObj 0] [] [] body_ok w0)) 0"
proof -
  let ?e = "sample_env Py3"
  let ?l = "[PStr ''p1'', PStr ''p1'', PObj 0]"
  let ?ps = "[(PObj 1, True), (PObj 2, True), (PObj 0, False)]"
  define w1 where "w1 = snd (get_filehandles ?e ?l [] [] w0)"
  have f1: "fst (get_filehandles ?e ?l [] [] w0) = Inr ?ps"
    by (simp add: sample_simps)
  have gs: "get_filehandles ?e ?l [] [] w0 = (Inr ?ps, w1)"
    by (simp add: w1_def sample_simps)
  have uz: "unzip_pairs ?ps = Inr ([PObj 1, PObj 2, PObj 0], [True, True, False])"
    by simp
  have bd: "body_ok [PObj 1, PObj 2, PObj 0] w1 = (Inr 7, w1)"
    by (simp add: body_ok_def)
  have ev: "events w1 = [EvOpen (PStr ''p1'') [] [], EvOpen (PStr ''p1'') [] []]"
    by (simp add: w1_def sample_simps)
  have cl: "\<not> closed_fh w1 0" by (simp add: w1_def sample_simps)
  have ce: "close_error w1 a = None" for a by (simp add: w1_def sample_simps)
  from open_files_order_and_release[where body = body_ok, OF gs uz bd]
  obtain as where
    m: "map PObj as = map fst (filter snd (zip [PObj 1, PObj 2, PObj 0] [True, True, False]))" and
    o: "(\<forall>a\<in>set as. close_error w1 a = None) \<longrightarrow>
        open_files ?e ?l [] [] body_ok w0 =
          (Inr 7, w1\<lparr>closed_fh := (\<lambda>a. closed_fh w1 a \<or> a \<in> set as),
                        events := events w1 @ map EvClose as\<rparr>)"
    by blast
  from m have as: "as = [1, 2]" by (auto simp add: map_eq_Cons_conv)
  from o ce have o': "open_files ?e ?l [] [] body_ok w0 =
          (Inr 7, w1\<lparr>closed_fh := (\<lambda>a. closed_fh w1 a \<or> a \<in> set as),
                        events := events w1 @ map EvClose as\<rparr>)"
    by simp
  have r1: "fst (open_files ?e ?l [] [] body_ok w0) = Inr 7" by (simp add: o')
  have r2: "events (snd (open_files ?e ?l [] [] body_ok w0)) =
      [EvOpen (PStr ''p1'') [] [], EvOpen (PStr ''p1'') [] [], EvClose 1, EvClose 2]"
    by (simp add: o' as ev)
  have r3: "closed_fh (snd (open_files ?e ?l [] [] body_ok w0)) 1"
    and r4: "closed_fh (snd (open_files ?e ?l [] [] body_ok w0)) 2"
    and r5: "\<not> closed_fh (snd (open_files ?e ?l [] [] body_ok w0)) 0"
    using cl by (simp_all add: o' as)
  from f1 uz r1 r2 r3 r4 r5 show ?thesis by blast
qed

text \<open>
  C5, the claim refuted. Two existing files are opened for writing and the body writes
  to the first what cannot be flushed. At exit the \<^verbatim>\<open>close\<close> of the first stream raises,
  the loop of lines 128 to 130 ends there, and the second stream, owned as well, is never
  closed. And for the empty input list nothing is yielded: line 124 raises.
\<close>

theorem open_files_close_failure_counterexample:
  "fst (get_filehandles (sample_env Py3) [PStr ''p1'', PStr ''p2''] [PStr ''w''] [] w0)
      = Inr [(PObj 1, True), (PObj 2, True)]
   \<and> fst (open_files (sample_env Py3) [PStr ''p1'', PStr ''p2''] [PStr ''w''] []
            body_write_full w0) = Inl (OSError 28)
   \<and> events (snd (open_files (sample_env Py3) [PStr ''p1'', PStr ''p2''] [PStr ''w''] []
            body_write_full w0))
      = [EvOpen (PStr ''p1'') [PStr ''w''] [], EvOpen (PStr ''p2'') [PStr ''w''] [], EvClose 1]
   \<and> objs (snd (open_files (sample_env Py3) [PStr ''p1'', PStr ''p2''] [PStr ''w''] []
            body_write_full w0)) 2 = Some (FileStream ''ACGT'')
   \<and> \<not> closed_fh (snd (open_files (sample_env Py3) [PStr ''p1'', PStr ''p2''] [PStr ''w''] []
            body_write_full w0)) 2
   \<and> fst (open_files (sample_env Py3) [] [PStr ''w''] [] body_write_full w0) = Inl ValueError"
  by (simp add: list_simps)

text \<open>
  C6, as the code behaves. When the inputs before position \<open>k\<close> resolved and input
  \<open>k\<close> fails, \<^verbatim>\<open>open_files\<close> raises that failure at once: the body does not run and
  the module calls \<^verbatim>\<open>close\<close> on nothing. The pairs already built are dropped with the
  list of line 124, so every owned stream opened for the earlier inputs is left to the
  host: closed by its finaliser on a reference-counting host, still open on any other.
\<close>

theorem open_files_resolution_failure_closes_nothing:
  assumes "get_filehandles e pre args kwargs w = (Inr ps, w1)"
    and "get_filehandle e f args kwargs w1 = (Inl err, w2)"
  shows "open_files e (pre @ f # post) args kwargs body w = (Inl err, foldr (release e) ps w2)
       \<and> (\<exists>evs. events (foldr (release e) ps w2) = events w @ evs
                 \<and> (\<forall>a. EvClose a \<notin> set evs))
       \<and> (\<forall>a. (PObj a, True) \<in> set ps \<longrightarrow>
             objs (foldr (release e) ps w2) a \<noteq> None
             \<and> closed_fh (foldr (release e) ps w2) a = refcounted e)"
proof -
  have "get_filehandles e (f # post) args kwargs w1 = (Inl err, w2)"
    using assms(2) by simp
  then have "get_filehandles e (pre @ f # post) args kwargs w = (Inl err, foldr (release e) ps w2)"
    using assms(1) by (simp add: get_filehandles_append)
  then have 1: "open_files e (pre @ f # post) args kwargs body w
      = (Inl err, foldr (release e) ps w2)"
    by (simp add: open_files_def)
  have 2: "objs (foldr (release e) ps w2) a \<noteq> None
      \<and> closed_fh (foldr (release e) ps w2) a = refcounted e"
    if "(PObj a, True) \<in> set ps" for a
  proof -
    from get_filehandles_owned_open[OF assms(1) that]
    have "a < next_fh w1" "\<not> closed_fh w1 a" "objs w1 a \<noteq> None" by simp_all
    with get_filehandle_frame(2)[OF assms(2)] get_filehandle_objs_frame[OF assms(2)]
    have "\<not> closed_fh w2 a" "objs w2 a \<noteq> None" by simp_all
    with that show ?thesis by (simp add: foldr_release_frame)
  qed
  from get_filehandles_frame[OF assms(1)] get_filehandle_frame(3)[OF assms(2)]
  have 3: "\<exists>evs. events (foldr (release e) ps w2) = events w @ evs
      \<and> (\<forall>a. EvClose a \<notin> set evs)"
    by (auto simp add: foldr_release_frame)
  from 1 2 3 show ?thesis by blast
qed

theorem open_files_resolution_failure_closes_nothing_witness:
  "fst (get_filehandles (sample_env Py3) [PStr ''p1''] [] [] w0) = Inr [(PObj 1, True)]
   \<and> fst (get_filehandle (sample_env Py3) (PStr ''nofile'') [] []
            (snd (get_filehandles (sample_env Py3) [PStr ''p1''] [] [] w0))) = Inl (OSError 2)
   \<and> refcounted (sample_env Py3)
   \<and> fst (open_files (sample_env Py3) [PStr ''p1'', PStr ''nofile'', PStr ''p2''] [] []
            body_ok w0) = Inl (OSError 2)
   \<and> events (snd (open_files (sample_env Py3) [PStr ''p1'', PStr ''nofile'', PStr ''p2''] [] []
            body_ok w0)) = [EvOpen (PStr ''p1'') [] [], EvOpen (PStr ''nofile'') [] []]
   \<and> closed_fh (snd (open_files (sample_env Py3)
            [PStr ''p1'', PStr ''nofile'', PStr ''p2''] [] [] body_ok w0)) 1"
proof -
  let ?e = "sample_env Py3"
  define w1 where "w1 = snd (get_filehandles ?e [PStr ''p1''] [] [] w0)"
  define w2 where "w2 = snd (get_filehandle ?e (PStr ''nofile'') [] [] w1)"
  have f1: "fst (get_filehandles ?e [PStr ''p1''] [] [] w0) = Inr [(PObj 1, True)]"
    by (simp add: sample_simps)
  have f2: "fst (get_filehandle ?e (PStr ''nofile'') [] []
      (snd (get_filehandles ?e [PStr ''p1''] [] [] w0))) = Inl (OSError 2)"
    by (simp add: sample_simps)
  have rc: "refcounted ?e" by (simp add: sample_env_def)
  have gs: "get_filehandles ?e [PStr ''p1''] [] [] w0 = (Inr [(PObj 1, True)], w1)"
    by (simp add: w1_def sample_simps)
  have g: "get_filehandle ?e (PStr ''nofile'') [] [] w1 = (Inl (OSError 2), w2)"
    by (simp add: w2_def w1_def sample_simps)
  have ev: "events w2 = [EvOpen (PStr ''p1'') [] [], EvOpen (PStr ''nofile'') [] []]"
    by (simp add: w2_def w1_def sample_simps)
  note t = open_files_resolution_failure_closes_nothing
    [where body = body_ok and post = "[PStr ''p2'']", OF gs g]
  from t have o: "open_files ?e [PStr ''p1'', PStr ''nofile'', PStr ''p2''] [] [] body_ok w0
      = (Inl (OSError 2), foldr (release ?e) [(PObj 1, True)] w2)"
    by simp
  from t rc have c: "closed_fh (foldr (release ?e) [(PObj 1, True)] w2) 1" by simp
  have r1: "fst (open_files ?e [PStr ''p1'', PStr ''nofile'', PStr ''p2''] [] [] body_ok w0)
      = Inl (OSError 2)"
    by (simp add: o)
  have r2: "events (snd (open_files ?e [PStr ''p1'', PStr ''nofile'', PStr ''p2''] [] []
      body_ok w0)) = [EvOpen (PStr ''p1'') [] [], EvOpen (PStr ''nofile'') [] []]"
    using ev by (simp add: o foldr_release_frame)
  have r3: "closed_fh (snd (open_files ?e [PStr ''p1'', PStr ''nofile'', PStr ''p2''] [] []
      body_ok w0)) 1"
    using c by (simp add: o)
  from f1 f2 rc r1 r2 r3 show ?thesis by blast
qed

text \<open>
  C6, the claim refuted. On a host that does not finalise at once, with an existing file
  first and a missing file second, \<^verbatim>\<open>open_files\<close> raises the failure of the second
  while the stream opened for the first (owned, identity 1) exists and is not closed: the
  only calls made are the two \<^verbatim>\<open>open\<close>.
\<close>

theorem open_files_partial_failure_counterexample:
  "\<not> refcounted (sample_env_gc Py3)
   \<and> fst (get_filehandle (sample_env_gc Py3) (PStr ''p1'') [] [] w0) = Inr (PObj 1, True)
   \<and> fst (open_files (sample_env_gc Py3) [PStr ''p1'', PStr ''nofile''] [] [] body_ok w0)
        = Inl (OSError 2)
   \<and> objs (snd (open_files (sample_env_gc Py3) [PStr ''p1'', PStr ''nofile''] [] [] body_ok w0)) 1
        = Some (FileStream ''ACGT'')
   \<and> \<not> closed_fh (snd (open_files (sample_env_gc Py3) [PStr ''p1'', PStr ''nofile''] [] []
            body_ok w0)) 1
   \<and> events (snd (open_files (sample_env_gc Py3) [PStr ''p1'', PStr ''nofile''] [] [] body_ok w0))
        = [EvOpen (PStr ''p1'') [] [], EvOpen (PStr ''nofile'') [] []]"
  by (simp add: list_simps)

text \<open>
  C7, on Python 3. The text URL is fetched with a GET. The byte string of the same
  characters parses to the scheme \<^verbatim>\<open>b'http'\<close>, which is not a member of
  \<^verbatim>\<open>{'http', 'https'}\<close>, so it is handed to \<^verbatim>\<open>open\<close> as a path, and that
  fails here with \<^verbatim>\<open>ENOENT\<close>.
\<close>

theorem bytes_url_py3_opened_as_path:
  "urlparse_scheme (sample_env Py3) (PStr ''http://h/s'') = Inr (PStr ''http'')
   \<and> events (snd (get_filehandle (sample_env Py3) (PStr ''http://h/s'') [] [] w0))
        = [EvGet (PStr ''http://h/s'') []]
   \<and> fst (get_filehandle (sample_env Py3) (PStr ''http://h/s'') [] [] w0) = Inr (PObj 1, True)
   \<and> urlparse_scheme (sample_env Py3) (PBytes ''http://h/s'') = Inr (PBytes ''http'')
   \<and> events (snd (get_filehandle (sample_env Py3) (PBytes ''http://h/s'') [] [] w0))
        = [EvOpen (PBytes ''http://h/s'') [] []]
   \<and> fst (get_filehandle (sample_env Py3) (PBytes ''http://h/s'') [] [] w0) = Inl (OSError 2)"
  by (simp add: sample_simps)

text \<open>
  C8. For a string classified as a path, the one call made is \<^verbatim>\<open>open\<close> with the
  input, the positional and the keyword options as given, and its answer decides the
  result. For a string classified as a URL, the one call made is the GET with the input
  and the keyword options as given.
\<close>

theorem options_forwarded:
  assumes "is_string_or_bytes x" and "urlparse_scheme e x = Inr scheme"
  shows "(\<not> scheme_in_http_https (host e) scheme \<longrightarrow>
            events (snd (get_filehandle e x args kwargs w)) = events w @ [EvOpen x args kwargs]
            \<and> fst (get_filehandle e x args kwargs w) =
                (case fs_open e x args kwargs of
                   Inl err \<Rightarrow> Inl err
                 | Inr f \<Rightarrow> Inr (PObj (next_fh w), True))
            \<and> (\<forall>f. fs_open e x args kwargs = Inr f \<longrightarrow>
                 objs (snd (get_filehandle e x args kwargs w)) (next_fh w) = Some (FileStream f)))
       \<and> (scheme_in_http_https (host e) scheme \<longrightarrow>
            events (snd (get_filehandle e x args kwargs w)) = events w @ [EvGet x kwargs]
            \<and> fst (get_filehandle e x args kwargs w) =
                (case http_get e x kwargs of
                   Inl err \<Rightarrow> Inl err
                 | Inr req \<Rightarrow>
                     (case raise_for_status e req of
                        Some err \<Rightarrow> Inl err
                      | None \<Rightarrow> Inr (PObj (next_fh w), True))))"
  using assms
  by (simp add: get_filehandle_def Let_def new_stream_def log_event_def
      split: sum.splits option.splits)

theorem options_forwarded_witness:
  "is_string_or_bytes (PStr ''p1'')
   \<and> urlparse_scheme (sample_env Py3) (PStr ''p1'') = Inr (PStr '''')
   \<and> events (snd (get_filehandle (sample_env Py3) (PStr ''p1'') [PStr ''rb'']
                 [(''buffering'', PInt 0)] w0))
       = [EvOpen (PStr ''p1'') [PStr ''rb''] [(''buffering'', PInt 0)]]
   \<and> is_string_or_bytes (PStr ''http://h/s'')
   \<and> urlparse_scheme (sample_env Py3) (PStr ''http://h/s'') = Inr (PStr ''http'')
   \<and> events (snd (get_filehandle (sample_env Py3) (PStr ''http://h/s'') [PStr ''rb'']
                 [(''timeout'', PInt 5)] w0))
       = [EvGet (PStr ''http://h/s'') [(''timeout'', PInt 5)]]"
proof -
  let ?e = "sample_env Py3"
  have u1: "urlparse_scheme ?e (PStr ''p1'') = Inr (PStr '''')"
    by (simp add: sample_env_def sample_scheme_def)
  have u2: "urlparse_scheme ?e (PStr ''http://h/s'') = Inr (PStr ''http'')"
    by (simp add: sample_env_def sample_scheme_def)
  have hst: "host ?e = Py3" by (simp add: sample_env_def)
  have ev: "events w0 = []" by (simp add: w0_def)
  show ?thesis
    using options_forwarded[OF _ u1, of "[PStr ''rb'']" "[(''buffering'', PInt 0)]" w0]
      options_forwarded[OF _ u2, of "[PStr ''rb'']" "[(''timeout'', PInt 5)]" w0]
      u1 u2 hst ev
    by simp
qed

text \<open>
  C9. Two scopes open the same path, the second in any world \<open>v\<close> not older than the
  one the first open left. The two streams are different objects, each new when opened.
  The exit of the second scope closes its own stream once and leaves the closed state of
  every other object, the first stream among them, as the body left it; and closing the
  first stream, in whatever world, leaves the second as it is.
\<close>

theorem independent_scopes:
  assumes o1: "get_filehandle e p args kwargs w = (Inr (fh1, True), w1)"
    and later: "next_fh w1 \<le> next_fh v"
    and o2: "get_filehandle e p args kwargs v = (Inr (fh2, True), v1)"
    and bd: "body fh2 v1 = (r, v2)"
  shows "\<exists>a1 a2. fh1 = PObj a1 \<and> fh2 = PObj a2 \<and> a1 \<noteq> a2
           \<and> a1 = next_fh w \<and> a2 = next_fh v
           \<and> open_file e p args kwargs body v =
               (case close_error v2 a2 of None \<Rightarrow> r | Some err \<Rightarrow> Inl err,
                v2\<lparr>closed_fh := (closed_fh v2)(a2 := True),
                   events := events v2 @ [EvClose a2]\<rparr>)
           \<and> (\<forall>b. b \<noteq> a2 \<longrightarrow>
                 closed_fh (snd (open_file e p args kwargs body v)) b = closed_fh v2 b)
           \<and> (\<forall>u. closed_fh (snd (fh_close fh1 u)) a2 = closed_fh u a2)"
proof -
  from get_filehandle_Inr(2)[OF o1] have 1: "fh1 = PObj (next_fh w)"
    and n1: "next_fh w1 = Suc (next_fh w)" by simp_all
  from get_filehandle_Inr(2)[OF o2] have 2: "fh2 = PObj (next_fh v)" by simp
  from n1 later have ne: "next_fh w \<noteq> next_fh v" by simp
  have o: "open_file e p args kwargs body v =
      (case close_error v2 (next_fh v) of None \<Rightarrow> r | Some err \<Rightarrow> Inl err,
       v2\<lparr>closed_fh := (closed_fh v2)(next_fh v := True),
          events := events v2 @ [EvClose (next_fh v)]\<rparr>)"
    using o2 bd 2 by (simp add: open_file_def split: option.splits)
  from 1 2 ne o show ?thesis by simp
qed

theorem independent_scopes_witness:
  "fst (get_filehandle (sample_env Py3) (PStr ''p1'') [] [] w0) = Inr (PObj 1, True)
   \<and> fst (get_filehandle (sample_env Py3) (PStr ''p1'') [] []
            (snd (get_filehandle (sample_env Py3) (PStr ''p1'') [] [] w0))) = Inr (PObj 2, True)
   \<and> closed_fh (snd (open_file (sample_env Py3) (PStr ''p1'') [] [] body_ok
            (snd (get_filehandle (sample_env Py3) (PStr ''p1'') [] [] w0)))) 2
   \<and> \<not> closed_fh (snd (open_file (sample_env Py3) (PStr ''p1'') [] [] body_ok
            (snd (get_filehandle (sample_env Py3) (PStr ''p1'') [] [] w0)))) 1"
proof -
  let ?e = "sample_env Py3"
  define w1 where "w1 = snd (get_filehandle ?e (PStr ''p1'') [] [] w0)"
  define v1 where "v1 = snd (get_filehandle ?e (PStr ''p1'') [] [] w1)"
  have o1: "get_filehandle ?e (PStr ''p1'') [] [] w0 = (Inr (PObj 1, True), w1)"
    by (simp add: w1_def sample_simps)
  have o2: "get_filehandle ?e (PStr ''p1'') [] [] w1 = (Inr (PObj 2, True), v1)"
    by (simp add: v1_def w1_def sample_simps)
  have bd: "body_ok (PObj 2) v1 = (Inr 7, v1)" by (simp add: body_ok_def)
  have c1: "\<not> closed_fh v1 1" by (simp add: v1_def w1_def sample_simps)
  have ce: "close_error v1 2 = None" by (simp add: v1_def w1_def sample_simps)
  from independent_scopes[where body = body_ok, OF o1 _ o2 bd] ce
  have o: "open_file ?e (PStr ''p1'') [] [] body_ok w1 =
            (Inr 7, v1\<lparr>closed_fh := (closed_fh v1)(2 := True),
                          events := events v1 @ [EvClose 2]\<rparr>)"
    and k: "closed_fh (snd (open_file ?e (PStr ''p1'') [] [] body_ok w1)) 1 = closed_fh v1 1"
    by auto
  have r1: "fst (get_filehandle ?e (PStr ''p1'') [] [] w0) = Inr (PObj 1, True)"
    by (simp add: o1)
  have r2: "fst (get_filehandle ?e (PStr ''p1'') [] [] w1) = Inr (PObj 2, True)"
    by (simp add: o2)
  have r3: "closed_fh (snd (open_file ?e (PStr ''p1'') [] [] body_ok w1)) 2"
    by (simp add: o)
  have r4: "\<not> closed_fh (snd (open_file ?e (PStr ''p1'') [] [] body_ok w1)) 1"
    using k c1 by simp
  from r1 r2 r3 r4 show ?thesis unfolding w1_def by blast
qed

text \<open>
  C10. Called with the empty list, \<^verbatim>\<open>open_files\<close> raises \<^verbatim>\<open>ValueError\<close> at the
  unpacking of line 124, whatever the host, the options and the body: the body never
  runs and the world is unchanged.
\<close>

theorem open_files_empty_raises:
  "open_files e [] args kwargs body w = (Inl ValueError, w)"
  by (simp add: open_files_def)

end
